theory Spec2Isabelle
  imports Complex_Main
begin

section \<open>The pipeline-run view: data model\<close>

text \<open>
  The component \<open>PipelineRun\<close> receives an optional run (a GraphQL fragment) as its
  props and keeps three fields of state. The records below follow the fragment
  \<open>PipelineRunFragment\<close> and the interfaces \<open>IPipelineRunProps\<close> and
  \<open>IPipelineRunState\<close>. Several GraphQL objects have a field called \<open>name\<close> or
  \<open>key\<close>; the record fields carry the owning object as a prefix where they would
  clash.
\<close>

record PythonError =
  message :: string
  stack :: "string list"

record EventStep =
  step_name :: string

text \<open>
  A log node is a union discriminated by \<open>__typename\<close>. Only the variant
  \<open>ExecutionStepFailureEvent\<close> is read by this component: it carries a nullable
  \<open>step\<close> and an \<open>error\<close>. Every other variant is declared in fragments that
  belong to other components; its content is the parameter \<open>'n\<close>.
\<close>

datatype 'n LogNode =
    ExecutionStepFailureEvent "EventStep option" PythonError
  | OtherEvent 'n

record 'n Logs =
  nodes :: "'n LogNode list"

record OutputType =
  type_name :: string

record StepOutput =
  output_name :: string
  output_type :: OutputType

record DependsOn =
  dependsOn_key :: string
  outputs :: "StepOutput list"

record StepInput =
  dependsOn :: DependsOn

record ExecutionStep =
  key :: string
  inputs :: "StepInput list"

record ExecutionPlan =
  steps :: "ExecutionStep list"
  artifactsPersisted :: bool

record Solid =
  solid_name :: string

record Pipeline =
  pipeline_name :: string
  solids :: "Solid list"

record 'n PipelineRunFragment =
  config :: string
  runId :: string
  mode :: string
  pipeline :: Pipeline
  logs :: "'n Logs"
  executionPlan :: ExecutionPlan

text \<open>
  The props also hold the Apollo client, which \<open>render\<close> hands to the subscription
  provider and which no handler reads; it is left out.
\<close>

record 'n IPipelineRunProps =
  run :: "'n PipelineRunFragment option"

text \<open>
  Modelled from the spec: the declaration of \<open>ILogFilter\<close> lives in
  \<open>LogsFilterProvider\<close>, which is not among the sources. The spec gives it a text
  and a set of levels; any further field is the extension part of the record
  (the type parameter \<open>'f\<close> of the state below).
\<close>

record ILogFilter =
  filter_text :: string
  levels :: "string set"

record 'f IPipelineRunState =
  logsVW :: real
  logsFilter :: "'f ILogFilter_scheme"
  highlightedError :: "PythonError option"

subsection \<open>The re-execution request\<close>

record StepOutputHandle =
  stepKey :: string
  outputName :: string

record ReexecutionConfig =
  previousRunId :: string
  stepOutputHandles :: "StepOutputHandle list"

record ExecutionSelector =
  selector_name :: string
  solidSubset :: "string list"

text \<open>
  The variables of the mutation \<open>ReexecuteStep\<close>. The parsed configuration is
  whatever \<open>yaml.parse\<close> returns, the parameter \<open>'c\<close>.
\<close>

record 'c ReexecuteStepVariables =
  var_pipeline :: ExecutionSelector
  var_config :: 'c
  stepKeys :: "string list"
  reexecutionConfig :: ReexecutionConfig
  var_mode :: string

section \<open>State updates\<close>

text \<open>
  \<open>this.setState(partial)\<close> merges the keys present in \<open>partial\<close> into the state
  and leaves the others. A partial state has one optional entry per field; the
  entry for \<open>highlightedError\<close> is \<open>Some None\<close> when the key is present with the
  value \<open>undefined\<close>.
\<close>

record 'f PartialState =
  set_logsVW :: "real option"
  set_logsFilter :: "'f ILogFilter_scheme option"
  set_highlightedError :: "PythonError option option"

definition noKeys :: "'f PartialState" where
  "noKeys = \<lparr>set_logsVW = None, set_logsFilter = None, set_highlightedError = None\<rparr>"

definition setState :: "'f IPipelineRunState \<Rightarrow> 'f PartialState \<Rightarrow> 'f IPipelineRunState" where
  "setState st partial =
     \<lparr>logsVW = (case set_logsVW partial of None \<Rightarrow> logsVW st | Some vw \<Rightarrow> vw),
      logsFilter = (case set_logsFilter partial of None \<Rightarrow> logsFilter st | Some f \<Rightarrow> f),
      highlightedError =
        (case set_highlightedError partial of None \<Rightarrow> highlightedError st | Some e \<Rightarrow> e)\<rparr>"

section \<open>Array helpers\<close>

text \<open>
  \<open>Array.prototype.find\<close> is \<^const>\<open>List.find\<close>: the first element, in index
  order, that satisfies the predicate, or nothing. \<open>forEach\<close> runs its body on
  every element in index order; the body here mutates an object that lives
  outside the loop, which the model threads through as \<open>acc\<close>. \<open>push\<close> appends
  at the end.
\<close>

fun forEach :: "'a list \<Rightarrow> ('a \<Rightarrow> 's \<Rightarrow> 's) \<Rightarrow> 's \<Rightarrow> 's" where
  "forEach [] body acc = acc"
| "forEach (x # xs) body acc = forEach xs body (body x acc)"

definition push :: "'a list \<Rightarrow> 'a \<Rightarrow> 'a list" where
  "push xs x = xs @ [x]"

section \<open>Showing the error of a step\<close>

text \<open>
  The predicate handed to \<open>find\<close> in \<open>onShowStateDetails\<close>: the node is a step
  failure event, its step is not null, and the step's name is the one asked for.
\<close>

fun isFailureOfStep :: "string \<Rightarrow> 'n LogNode \<Rightarrow> bool" where
  "isFailureOfStep step (ExecutionStepFailureEvent node_step err) =
     (case node_step of None \<Rightarrow> False | Some s \<Rightarrow> step_name s = step)"
| "isFailureOfStep step (OtherEvent n) = False"

text \<open>Reading \<open>.error\<close> off a node: only a failure event has the field.\<close>

fun error :: "'n LogNode \<Rightarrow> PythonError option" where
  "error (ExecutionStepFailureEvent node_step err) = Some err"
| "error (OtherEvent n) = None"

definition onShowStateDetails ::
  "'n IPipelineRunProps \<Rightarrow> 'f IPipelineRunState \<Rightarrow> string \<Rightarrow> 'f IPipelineRunState" where
  "onShowStateDetails props st step =
     (case run props of
        None \<Rightarrow> st
      | Some r \<Rightarrow>
          (case List.find (isFailureOfStep step) (nodes (logs r)) of
             None \<Rightarrow> st
           | Some errorNode \<Rightarrow>
               setState st (noKeys\<lparr>set_highlightedError := Some (error errorNode)\<rparr>)))"

section \<open>Re-executing a step\<close>

text \<open>
  The handles of the outputs to reuse. The outer loop runs over the inputs of
  the step, the inner loop over the outputs of the step that the input depends
  on; each pass of the inner loop pushes one handle.
\<close>

definition buildReexecutionConfig ::
  "'n PipelineRunFragment \<Rightarrow> ExecutionStep \<Rightarrow> ReexecutionConfig" where
  "buildReexecutionConfig r step =
     forEach (inputs step)
       (\<lambda>input. forEach (outputs (dependsOn input))
          (\<lambda>outputOfDependentStep cfg.
             cfg\<lparr>stepOutputHandles :=
                   push (stepOutputHandles cfg)
                     \<lparr>stepKey = dependsOn_key (dependsOn input),
                      outputName = output_name outputOfDependentStep\<rparr>\<rparr>))
       \<lparr>previousRunId = runId r, stepOutputHandles = []\<rparr>"

text \<open>
  What \<open>onReexecuteStep\<close> does to the outside: it calls the mutation with the
  variables, and then \<open>handleStartExecutionResult\<close> with the pipeline's name and
  the mutation's result. \<open>yaml.parse\<close> and the mutation are parameters; each may
  fail (\<open>Inl\<close>), which rejects the promise the handler returns.
\<close>

datatype ('c, 'r) call =
    Mutation "'c ReexecuteStepVariables"
  | HandleStartExecutionResult string 'r

record ('f, 'e, 'c, 'r) outcome =
  state_after :: "'f IPipelineRunState"
  calls :: "('c, 'r) call list"
  rejected :: "'e option"

definition onReexecuteStep ::
  "(string \<Rightarrow> 'e + 'c) \<Rightarrow> ('c ReexecuteStepVariables \<Rightarrow> 'e + 'r) \<Rightarrow>
   'n IPipelineRunProps \<Rightarrow> 'f IPipelineRunState \<Rightarrow> string \<Rightarrow> ('f, 'e, 'c, 'r) outcome" where
  "onReexecuteStep yaml_parse mutation props st stepName =
     (case run props of
        None \<Rightarrow> \<lparr>state_after = st, calls = [], rejected = None\<rparr>
      | Some r \<Rightarrow>
          (case List.find (\<lambda>s. key s = stepName) (steps (executionPlan r)) of
             None \<Rightarrow> \<lparr>state_after = st, calls = [], rejected = None\<rparr>
           | Some step \<Rightarrow>
               (case yaml_parse (config r) of
                  Inl e \<Rightarrow> \<lparr>state_after = st, calls = [], rejected = Some e\<rparr>
                | Inr parsed \<Rightarrow>
                    (let variables =
                           \<lparr>var_pipeline =
                              \<lparr>selector_name = pipeline_name (pipeline r),
                               solidSubset = map solid_name (solids (pipeline r))\<rparr>,
                            var_config = parsed,
                            stepKeys = [stepName],
                            reexecutionConfig = buildReexecutionConfig r step,
                            var_mode = mode r\<rparr>
                     in (case mutation variables of
                           Inl e \<Rightarrow>
                             \<lparr>state_after = st, calls = [Mutation variables], rejected = Some e\<rparr>
                         | Inr result \<Rightarrow>
                             \<lparr>state_after = st,
                              calls = [Mutation variables,
                                       HandleStartExecutionResult (pipeline_name (pipeline r)) result],
                              rejected = None\<rparr>)))))"

section \<open>The handlers created by render\<close>

text \<open>
  \<open>render\<close> reads the state once and creates the inline handlers, which close
  over what it read. Each handler is a function of the state at the time it
  runs. The markup is left out; what remains of the view is the plan handed to
  the execution-plan component and whether the error dialog is open.
\<close>

record 'f Rendered =
  shown_executionPlan :: ExecutionPlan
  onSetFilter :: "'f ILogFilter_scheme \<Rightarrow> 'f IPipelineRunState \<Rightarrow> 'f IPipelineRunState"
  onMove :: "real \<Rightarrow> 'f IPipelineRunState \<Rightarrow> 'f IPipelineRunState"
  onApplyStepFilter :: "string \<Rightarrow> 'f IPipelineRunState \<Rightarrow> 'f IPipelineRunState"
  onClose :: "'f IPipelineRunState \<Rightarrow> 'f IPipelineRunState"
  isOpen :: bool

definition render :: "'n IPipelineRunProps \<Rightarrow> 'f IPipelineRunState \<Rightarrow> 'f Rendered" where
  "render props st =
     (let rendered_logsFilter = logsFilter st;
          rendered_highlightedError = highlightedError st
      in \<lparr>shown_executionPlan =
            (case run props of
               Some r \<Rightarrow> executionPlan r
             | None \<Rightarrow> \<lparr>steps = [], artifactsPersisted = False\<rparr>),
          onSetFilter = (\<lambda>filter now. setState now (noKeys\<lparr>set_logsFilter := Some filter\<rparr>)),
          onMove = (\<lambda>vw now. setState now (noKeys\<lparr>set_logsVW := Some vw\<rparr>)),
          onApplyStepFilter =
            (\<lambda>stepName now.
               setState now
                 (noKeys\<lparr>set_logsFilter :=
                           Some (rendered_logsFilter\<lparr>filter_text := ''step:'' @ stepName\<rparr>)\<rparr>)),
          onClose = (\<lambda>now. setState now (noKeys\<lparr>set_highlightedError := Some None\<rparr>)),
          isOpen = (rendered_highlightedError \<noteq> None)\<rparr>)"

section \<open>Reading the result\<close>

text \<open>The variables of the mutation calls among the calls made, in order.\<close>

fun submitted :: "('c, 'r) call list \<Rightarrow> 'c ReexecuteStepVariables list" where
  "submitted [] = []"
| "submitted (Mutation v # cs) = v # submitted cs"
| "submitted (HandleStartExecutionResult n r # cs) = submitted cs"

text \<open>
  The handles that one input contributes: one for each output that the step it
  depends on declares, in the order of declaration, all under that step's key.
\<close>

definition handlesOfInput :: "StepInput \<Rightarrow> StepOutputHandle list" where
  "handlesOfInput input =
     map (\<lambda>out. \<lparr>stepKey = dependsOn_key (dependsOn input), outputName = output_name out\<rparr>)
       (outputs (dependsOn input))"

section \<open>A concrete run\<close>

text \<open>
  One run used to evaluate the handlers. Its plan has the steps \<open>A\<close> and \<open>B\<close>
  without inputs, \<open>join\<close> with one input from each of them, \<open>wide\<close> with one
  input from a step that declares two outputs, and \<open>twice\<close> with two inputs from
  the same step. Its log holds a start event and a failure event of step \<open>X\<close>.
  Intermediate outputs are not persisted.
\<close>

definition resultOutput :: StepOutput where
  "resultOutput = \<lparr>output_name = ''result'', output_type = \<lparr>type_name = ''Int''\<rparr>\<rparr>"

definition valueOutput :: StepOutput where
  "valueOutput = \<lparr>output_name = ''value'', output_type = \<lparr>type_name = ''Int''\<rparr>\<rparr>"

definition fromA :: StepInput where
  "fromA = \<lparr>dependsOn = \<lparr>dependsOn_key = ''A'', outputs = [resultOutput]\<rparr>\<rparr>"

definition fromB :: StepInput where
  "fromB = \<lparr>dependsOn = \<lparr>dependsOn_key = ''B'', outputs = [valueOutput]\<rparr>\<rparr>"

definition fromSplit :: StepInput where
  "fromSplit = \<lparr>dependsOn = \<lparr>dependsOn_key = ''split'', outputs = [resultOutput, valueOutput]\<rparr>\<rparr>"

definition wideStep :: ExecutionStep where
  "wideStep = \<lparr>key = ''wide'', inputs = [fromSplit]\<rparr>"

definition examplePlan :: ExecutionPlan where
  "examplePlan =
     \<lparr>steps =
        [\<lparr>key = ''A'', inputs = []\<rparr>,
         \<lparr>key = ''B'', inputs = []\<rparr>,
         \<lparr>key = ''join'', inputs = [fromA, fromB]\<rparr>,
         wideStep,
         \<lparr>key = ''twice'', inputs = [fromA, fromA]\<rparr>],
      artifactsPersisted = False\<rparr>"

definition boom :: PythonError where
  "boom = \<lparr>message = ''boom'', stack = []\<rparr>"

definition exampleRun :: "string PipelineRunFragment" where
  "exampleRun =
     \<lparr>config = ''solids: {}'',
      runId = ''run-1'',
      mode = ''default'',
      pipeline = \<lparr>pipeline_name = ''demo'', solids = [\<lparr>solid_name = ''A''\<rparr>, \<lparr>solid_name = ''B''\<rparr>]\<rparr>,
      logs = \<lparr>nodes = [OtherEvent ''ExecutionStepStartEvent'',
                       ExecutionStepFailureEvent (Some \<lparr>step_name = ''X''\<rparr>) boom]\<rparr>,
      executionPlan = examplePlan\<rparr>"

definition exampleProps :: "string IPipelineRunProps" where
  "exampleProps = \<lparr>run = Some exampleRun\<rparr>"

definition noRunProps :: "string IPipelineRunProps" where
  "noRunProps = \<lparr>run = None\<rparr>"

definition exampleState :: "unit IPipelineRunState" where
  "exampleState =
     \<lparr>logsVW = 75,
      logsFilter = \<lparr>filter_text = ''warn'', levels = {''INFO'', ''ERROR''}\<rparr>,
      highlightedError = Some boom\<rparr>"

text \<open>A parser that accepts every text and a mutation that always succeeds.\<close>

definition parseAny :: "string \<Rightarrow> string + string" where
  "parseAny text = Inr text"

definition mutationOk :: "string ReexecuteStepVariables \<Rightarrow> string + unit" where
  "mutationOk variables = Inr ()"

section \<open>Properties of the iteration and of the handler\<close>

lemma forEach_push_handles:
  "forEach outs (\<lambda>out cfg. cfg\<lparr>stepOutputHandles := push (stepOutputHandles cfg) (h out)\<rparr>) cfg
     = cfg\<lparr>stepOutputHandles := stepOutputHandles cfg @ map h outs\<rparr>"
  by (induction outs arbitrary: cfg) (simp_all add: push_def)

lemma forEach_inputs_handles:
  "forEach ins (\<lambda>input. forEach (outputs (dependsOn input))
          (\<lambda>out cfg. cfg\<lparr>stepOutputHandles := push (stepOutputHandles cfg)
                     \<lparr>stepKey = dependsOn_key (dependsOn input), outputName = output_name out\<rparr>\<rparr>)) cfg
     = cfg\<lparr>stepOutputHandles := stepOutputHandles cfg @ concat (map handlesOfInput ins)\<rparr>"
  by (induction ins arbitrary: cfg) (simp_all add: forEach_push_handles handlesOfInput_def)

lemma buildReexecutionConfig_eq:
  "buildReexecutionConfig r step =
     \<lparr>previousRunId = runId r, stepOutputHandles = concat (map handlesOfInput (inputs step))\<rparr>"
  by (simp add: buildReexecutionConfig_def forEach_inputs_handles)

lemma onReexecuteStep_found:
  assumes "run props = Some r"
    and "List.find (\<lambda>s. key s = stepName) (steps (executionPlan r)) = Some step"
    and "yaml_parse (config r) = Inr parsed"
  shows "\<exists>rest. calls (onReexecuteStep yaml_parse mutation props st stepName) =
           Mutation \<lparr>var_pipeline =
                       \<lparr>selector_name = pipeline_name (pipeline r),
                        solidSubset = map solid_name (solids (pipeline r))\<rparr>,
                     var_config = parsed,
                     stepKeys = [stepName],
                     reexecutionConfig = buildReexecutionConfig r step,
                     var_mode = mode r\<rparr> # rest"
  using assms by (simp add: onReexecuteStep_def Let_def split: sum.split)

lemma isFailureOfStep_iff:
  "isFailureOfStep step n \<longleftrightarrow>
     (\<exists>s err. n = ExecutionStepFailureEvent (Some s) err \<and> step_name s = step)"
  by (cases n) (auto split: option.splits)

subsection \<open>Counting in concatenated lists\<close>

lemma sum_list_all_one:
  "(\<And>x. x \<in> set xs \<Longrightarrow> f x = (1::nat)) \<Longrightarrow> sum_list (map f xs) = length xs"
  by (induction xs) simp_all

lemma count_list_pos: "h \<in> set xs \<Longrightarrow> 1 \<le> count_list xs h"
  by (induction xs) auto

lemma count_two_positions:
  assumes "i < j" and "j < length xs"
    and "h \<in> set (f (xs ! i))" and "h \<in> set (f (xs ! j))"
  shows "2 \<le> count_list (concat (map f xs)) h"
proof -
  from assms(1,2) have i: "i < length xs" by simp
  have split: "xs = take i xs @ xs ! i # drop (Suc i) xs"
    using i by (rule id_take_nth_drop)
  have "xs ! j \<in> set (drop (Suc i) xs)"
  proof -
    have "j - Suc i < length (drop (Suc i) xs)"
      using assms(1,2) by simp
    moreover have "drop (Suc i) xs ! (j - Suc i) = xs ! j"
      using assms(1,2) by simp
    ultimately show ?thesis
      by (metis nth_mem)
  qed
  then have "h \<in> set (concat (map f (drop (Suc i) xs)))"
    using assms(4) by auto
  then have tail: "1 \<le> count_list (concat (map f (drop (Suc i) xs))) h"
    by (rule count_list_pos)
  have head: "1 \<le> count_list (f (xs ! i)) h"
    using assms(3) by (rule count_list_pos)
  have "count_list (concat (map f xs)) h =
          count_list (concat (map f (take i xs))) h + count_list (f (xs ! i)) h
          + count_list (concat (map f (drop (Suc i) xs))) h"
    by (subst split) simp
  with head tail show ?thesis by linarith
qed

subsection \<open>The handles collected\<close>

lemma stepOutputHandles_build:
  "stepOutputHandles (buildReexecutionConfig r step) = concat (map handlesOfInput (inputs step))"
  by (simp add: buildReexecutionConfig_eq)

lemma length_handlesOfInput: "length (handlesOfInput input) = length (outputs (dependsOn input))"
  by (simp add: handlesOfInput_def)

lemma set_handlesOfInput:
  "set (handlesOfInput input) =
     (\<lambda>out. \<lparr>stepKey = dependsOn_key (dependsOn input), outputName = output_name out\<rparr>)
       ` set (outputs (dependsOn input))"
  by (simp add: handlesOfInput_def)

lemma length_concat_handles:
  "length (concat (map handlesOfInput ins)) = sum_list (map (\<lambda>input. length (outputs (dependsOn input))) ins)"
  by (induction ins) (simp_all add: length_handlesOfInput)

lemma set_concat_handles:
  "set (concat (map handlesOfInput ins)) =
     (\<Union>input \<in> set ins.
        (\<lambda>out. \<lparr>stepKey = dependsOn_key (dependsOn input), outputName = output_name out\<rparr>)
          ` set (outputs (dependsOn input)))"
  by (induction ins) (simp_all add: set_handlesOfInput)

section \<open>The outputs to reuse\<close>

text \<open>
  C1 (as amended). When the run is loaded, the step is found in the plan and the
  configuration parses, the handler calls the mutation, and the list of handles
  in its variables holds one entry for every output declared by the step that
  an input depends on, under that step's key: its length is the sum, over the
  inputs, of the number of those outputs, its entries are exactly those pairs,
  and it is as long as the list of inputs when each of those steps declares
  exactly one output.
\<close>

theorem reusedOutputs_one_per_output_of_each_input:
  assumes "run props = Some r"
    and "List.find (\<lambda>s. key s = stepName) (steps (executionPlan r)) = Some step"
    and "yaml_parse (config r) = Inr parsed"
  shows "\<exists>v rest. calls (onReexecuteStep yaml_parse mutation props st stepName) = Mutation v # rest
           \<and> length (stepOutputHandles (reexecutionConfig v))
               = sum_list (map (\<lambda>input. length (outputs (dependsOn input))) (inputs step))
           \<and> set (stepOutputHandles (reexecutionConfig v))
               = (\<Union>input \<in> set (inputs step).
                    (\<lambda>out. \<lparr>stepKey = dependsOn_key (dependsOn input), outputName = output_name out\<rparr>)
                      ` set (outputs (dependsOn input)))
           \<and> ((\<forall>input \<in> set (inputs step). length (outputs (dependsOn input)) = 1)
                \<longrightarrow> length (stepOutputHandles (reexecutionConfig v)) = length (inputs step))"
proof -
  define v where "v =
       \<lparr>var_pipeline =
                   \<lparr>selector_name = pipeline_name (pipeline r),
                    solidSubset = map solid_name (solids (pipeline r))\<rparr>,
                 var_config = parsed,
                 stepKeys = [stepName],
                 reexecutionConfig = buildReexecutionConfig r step,
                 var_mode = mode r\<rparr>"
  have rc: "stepOutputHandles (reexecutionConfig v) = concat (map handlesOfInput (inputs step))"
    by (simp add: v_def stepOutputHandles_build)
  obtain rest where c: "calls (onReexecuteStep yaml_parse mutation props st stepName) = Mutation v # rest"
    using onReexecuteStep_found [where yaml_parse = yaml_parse, OF assms] unfolding v_def by blast
  have len: "length (stepOutputHandles (reexecutionConfig v))
      = sum_list (map (\<lambda>input. length (outputs (dependsOn input))) (inputs step))"
    unfolding rc by (rule length_concat_handles)
  have mem: "set (stepOutputHandles (reexecutionConfig v))
      = (\<Union>input \<in> set (inputs step).
                    (\<lambda>out. \<lparr>stepKey = dependsOn_key (dependsOn input), outputName = output_name out\<rparr>)
                      ` set (outputs (dependsOn input)))"
    unfolding rc by (rule set_concat_handles)
  have one: "(\<forall>input \<in> set (inputs step). length (outputs (dependsOn input)) = 1)
                \<longrightarrow> length (stepOutputHandles (reexecutionConfig v)) = length (inputs step)"
    unfolding len by (simp add: sum_list_all_one)
  from c len mem one show ?thesis by blast
qed

theorem reusedOutputs_one_per_output_of_each_input_witness:
  "\<exists>v rest. calls (onReexecuteStep parseAny mutationOk exampleProps exampleState ''join'') = Mutation v # rest
      \<and> length (stepOutputHandles (reexecutionConfig v)) = 2
      \<and> set (stepOutputHandles (reexecutionConfig v)) =
           {\<lparr>stepKey = ''A'', outputName = ''result''\<rparr>, \<lparr>stepKey = ''B'', outputName = ''value''\<rparr>}"
proof -
  let ?join = "\<lparr>key = ''join'', inputs = [fromA, fromB]\<rparr>"
  have a: "run exampleProps = Some exampleRun" by (simp add: exampleProps_def)
  have b: "List.find (\<lambda>s. key s = ''join'') (steps (executionPlan exampleRun)) = Some ?join"
    by (simp add: exampleRun_def examplePlan_def)
  have c: "parseAny (config exampleRun) = Inr ''solids: {}''"
    by (simp add: parseAny_def exampleRun_def)
  from reusedOutputs_one_per_output_of_each_input [where yaml_parse = parseAny and mutation = mutationOk
      and st = exampleState, OF a b c]
  obtain v rest where
    calls: "calls (onReexecuteStep parseAny mutationOk exampleProps exampleState ''join'') = Mutation v # rest"
    and len: "length (stepOutputHandles (reexecutionConfig v))
               = sum_list (map (\<lambda>input. length (outputs (dependsOn input))) (inputs ?join))"
    and mem: "set (stepOutputHandles (reexecutionConfig v))
               = (\<Union>input \<in> set (inputs ?join).
                    (\<lambda>out. \<lparr>stepKey = dependsOn_key (dependsOn input), outputName = output_name out\<rparr>)
                      ` set (outputs (dependsOn input)))"
    by blast
  from len have len2: "length (stepOutputHandles (reexecutionConfig v)) = 2"
    by (simp add: fromA_def fromB_def)
  from mem have mem2: "set (stepOutputHandles (reexecutionConfig v)) =
           {\<lparr>stepKey = ''A'', outputName = ''result''\<rparr>, \<lparr>stepKey = ''B'', outputName = ''value''\<rparr>}"
    by (simp add: fromA_def fromB_def resultOutput_def valueOutput_def insert_commute)
  from calls len2 mem2 show ?thesis by blast
qed

text \<open>
  The list is not one entry per input: the step \<open>wide\<close> has one input, which
  depends on a step with two outputs, and two handles are sent.
\<close>

theorem one_entry_per_input_counterexample:
  "key wideStep = ''wide'' \<and> length (inputs wideStep) = 1
   \<and> map reexecutionConfig
       (submitted (calls (onReexecuteStep parseAny mutationOk exampleProps exampleState ''wide'')))
     = [\<lparr>previousRunId = ''run-1'',
         stepOutputHandles = [\<lparr>stepKey = ''split'', outputName = ''result''\<rparr>,
                              \<lparr>stepKey = ''split'', outputName = ''value''\<rparr>]\<rparr>]"
  by (simp add: onReexecuteStep_def buildReexecutionConfig_def push_def exampleProps_def exampleRun_def
      examplePlan_def parseAny_def mutationOk_def wideStep_def fromSplit_def resultOutput_def valueOutput_def)

text \<open>
  C2. The handles follow the order in which the inputs are declared and, within
  an input, the order in which the outputs of the step it depends on are
  declared: the list is the concatenation, over the inputs in order, of the
  handles of each input in order. The handler is a function of the plan, so
  the list is the same whenever the plan is. For the step \<open>join\<close>, whose inputs
  come from \<open>A\<close> with the output \<open>result\<close> and from \<open>B\<close> with the output
  \<open>value\<close>, the list is those two handles in that order.
\<close>

theorem reusedOutputs_in_declaration_order:
  assumes "run props = Some r"
    and "List.find (\<lambda>s. key s = stepName) (steps (executionPlan r)) = Some step"
    and "yaml_parse (config r) = Inr parsed"
  shows "\<exists>v rest. calls (onReexecuteStep yaml_parse mutation props st stepName) = Mutation v # rest
           \<and> stepOutputHandles (reexecutionConfig v) =
               concat (map (\<lambda>input.
                         map (\<lambda>out. \<lparr>stepKey = dependsOn_key (dependsOn input),
                                      outputName = output_name out\<rparr>)
                           (outputs (dependsOn input)))
                       (inputs step))"
proof -
  from onReexecuteStep_found [where yaml_parse = yaml_parse, OF assms] obtain rest where
    "calls (onReexecuteStep yaml_parse mutation props st stepName) =
       Mutation \<lparr>var_pipeline =
                   \<lparr>selector_name = pipeline_name (pipeline r),
                    solidSubset = map solid_name (solids (pipeline r))\<rparr>,
                 var_config = parsed,
                 stepKeys = [stepName],
                 reexecutionConfig = buildReexecutionConfig r step,
                 var_mode = mode r\<rparr> # rest"
    by blast
  moreover have "stepOutputHandles (buildReexecutionConfig r step) =
      concat (map (\<lambda>input.
                         map (\<lambda>out. \<lparr>stepKey = dependsOn_key (dependsOn input),
                                      outputName = output_name out\<rparr>)
                           (outputs (dependsOn input)))
                       (inputs step))"
    by (simp add: buildReexecutionConfig_eq handlesOfInput_def [abs_def])
  ultimately show ?thesis by simp
qed

theorem reusedOutputs_in_declaration_order_witness:
  "\<exists>v rest. calls (onReexecuteStep parseAny mutationOk exampleProps exampleState ''join'') = Mutation v # rest
      \<and> stepOutputHandles (reexecutionConfig v) =
           [\<lparr>stepKey = ''A'', outputName = ''result''\<rparr>, \<lparr>stepKey = ''B'', outputName = ''value''\<rparr>]
      \<and> length (stepOutputHandles (reexecutionConfig v)) = 2"
proof -
  have a: "run exampleProps = Some exampleRun" by (simp add: exampleProps_def)
  have b: "List.find (\<lambda>s. key s = ''join'') (steps (executionPlan exampleRun))
             = Some \<lparr>key = ''join'', inputs = [fromA, fromB]\<rparr>"
    by (simp add: exampleRun_def examplePlan_def)
  have c: "parseAny (config exampleRun) = Inr ''solids: {}''"
    by (simp add: parseAny_def exampleRun_def)
  from reusedOutputs_in_declaration_order [where yaml_parse = parseAny and mutation = mutationOk
      and st = exampleState, OF a b c]
  show ?thesis by (auto simp add: fromA_def fromB_def resultOutput_def valueOutput_def)
qed

text \<open>
  C4. Nothing is removed from the list: when two inputs at different positions
  depend on the same step and that step has an output of some name in both,
  the handle of that step and name occurs at least twice. The step \<open>twice\<close> is
  such a step.
\<close>

theorem reusedOutputs_not_deduplicated:
  assumes "run props = Some r"
    and "List.find (\<lambda>s. key s = stepName) (steps (executionPlan r)) = Some step"
    and "yaml_parse (config r) = Inr parsed"
    and "i < j" and "j < length (inputs step)"
    and "dependsOn_key (dependsOn (inputs step ! i)) = k"
    and "dependsOn_key (dependsOn (inputs step ! j)) = k"
    and "n \<in> output_name ` set (outputs (dependsOn (inputs step ! i)))"
    and "n \<in> output_name ` set (outputs (dependsOn (inputs step ! j)))"
  shows "\<exists>v rest. calls (onReexecuteStep yaml_parse mutation props st stepName) = Mutation v # rest
           \<and> 2 \<le> count_list (stepOutputHandles (reexecutionConfig v)) \<lparr>stepKey = k, outputName = n\<rparr>"
proof -
  define v where "v =
       \<lparr>var_pipeline =
                   \<lparr>selector_name = pipeline_name (pipeline r),
                    solidSubset = map solid_name (solids (pipeline r))\<rparr>,
                 var_config = parsed,
                 stepKeys = [stepName],
                 reexecutionConfig = buildReexecutionConfig r step,
                 var_mode = mode r\<rparr>"
  have rc: "stepOutputHandles (reexecutionConfig v) = concat (map handlesOfInput (inputs step))"
    by (simp add: v_def stepOutputHandles_build)
  obtain rest where c: "calls (onReexecuteStep yaml_parse mutation props st stepName) = Mutation v # rest"
    using onReexecuteStep_found [where yaml_parse = yaml_parse, OF assms(1-3)] unfolding v_def by blast
  have hi: "\<lparr>stepKey = k, outputName = n\<rparr> \<in> set (handlesOfInput (inputs step ! i))"
    unfolding set_handlesOfInput using assms(6,8) by force
  have hj: "\<lparr>stepKey = k, outputName = n\<rparr> \<in> set (handlesOfInput (inputs step ! j))"
    unfolding set_handlesOfInput using assms(7,9) by force
  have "2 \<le> count_list (stepOutputHandles (reexecutionConfig v)) \<lparr>stepKey = k, outputName = n\<rparr>"
    unfolding rc using assms(4,5) hi hj by (rule count_two_positions)
  with c show ?thesis by blast
qed

theorem reusedOutputs_not_deduplicated_witness:
  "\<exists>v rest. calls (onReexecuteStep parseAny mutationOk exampleProps exampleState ''twice'') = Mutation v # rest
      \<and> 2 \<le> count_list (stepOutputHandles (reexecutionConfig v)) \<lparr>stepKey = ''A'', outputName = ''result''\<rparr>"
proof -
  let ?twice = "\<lparr>key = ''twice'', inputs = [fromA, fromA]\<rparr>"
  have a: "run exampleProps = Some exampleRun" by (simp add: exampleProps_def)
  have b: "List.find (\<lambda>s. key s = ''twice'') (steps (executionPlan exampleRun)) = Some ?twice"
    by (simp add: exampleRun_def examplePlan_def wideStep_def)
  have c: "parseAny (config exampleRun) = Inr ''solids: {}''"
    by (simp add: parseAny_def exampleRun_def)
  have d: "(0::nat) < 1" by simp
  have e: "1 < length (inputs ?twice)" by simp
  have f: "dependsOn_key (dependsOn (inputs ?twice ! 0)) = ''A''"
    by (simp add: fromA_def)
  have g: "dependsOn_key (dependsOn (inputs ?twice ! 1)) = ''A''"
    by (simp add: fromA_def)
  have h: "''result'' \<in> output_name ` set (outputs (dependsOn (inputs ?twice ! 0)))"
    by (simp add: fromA_def resultOutput_def)
  have i: "''result'' \<in> output_name ` set (outputs (dependsOn (inputs ?twice ! 1)))"
    by (simp add: fromA_def resultOutput_def)
  show ?thesis
    by (rule reusedOutputs_not_deduplicated [where yaml_parse = parseAny and mutation = mutationOk
      and st = exampleState, OF a b c d e f g h i])
qed

section \<open>The request and its guards\<close>

text \<open>
  C7. Every mutation call the handler makes carries, as its step keys, the
  list holding the requested step name and nothing else.
\<close>

theorem stepKeys_is_target:
  "Mutation v \<in> set (calls (onReexecuteStep yaml_parse mutation props st stepName)) \<Longrightarrow>
     stepKeys v = [stepName] \<and> set (stepKeys v) = {stepName}"
  by (auto simp add: onReexecuteStep_def Let_def split: option.splits sum.splits)

theorem stepKeys_is_target_witness:
  "submitted (calls (onReexecuteStep parseAny mutationOk exampleProps exampleState ''join'')) \<noteq> []
   \<and> map stepKeys (submitted (calls (onReexecuteStep parseAny mutationOk exampleProps exampleState ''join'')))
       = [''join''] # []"
proof -
  have "\<exists>v. calls (onReexecuteStep parseAny mutationOk exampleProps exampleState ''join'')
      = [Mutation v, HandleStartExecutionResult ''demo'' ()]"
    by (simp add: onReexecuteStep_def exampleProps_def exampleRun_def examplePlan_def
        parseAny_def mutationOk_def Let_def)
  then obtain v where v: "calls (onReexecuteStep parseAny mutationOk exampleProps exampleState ''join'')
      = [Mutation v, HandleStartExecutionResult ''demo'' ()]"
    by blast
  then have "Mutation v \<in> set (calls (onReexecuteStep parseAny mutationOk exampleProps exampleState ''join''))"
    by simp
  from stepKeys_is_target [OF this] show ?thesis using v by simp
qed

text \<open>
  C3 (as amended). When the run is loaded and no step of the plan has the
  requested key, the handler returns without an error: it calls nothing, the
  promise is not rejected, and the state is as it was.
\<close>

theorem unknown_step_is_silent_noop:
  "run props = Some r \<Longrightarrow> stepName \<notin> key ` set (steps (executionPlan r)) \<Longrightarrow>
     onReexecuteStep yaml_parse mutation props st stepName
       = \<lparr>state_after = st, calls = [], rejected = None\<rparr>"
proof -
  assume r: "run props = Some r" and n: "stepName \<notin> key ` set (steps (executionPlan r))"
  from n have "List.find (\<lambda>s. key s = stepName) (steps (executionPlan r)) = None"
    by (auto simp add: find_None_iff)
  with r show ?thesis by (simp add: onReexecuteStep_def)
qed

theorem unknown_step_is_silent_noop_witness:
  "run exampleProps = Some exampleRun
   \<and> ''missing'' \<notin> key ` set (steps (executionPlan exampleRun))
   \<and> onReexecuteStep parseAny mutationOk exampleProps exampleState ''missing''
       = \<lparr>state_after = exampleState, calls = [], rejected = None\<rparr>"
proof -
  have a: "run exampleProps = Some exampleRun" by (simp add: exampleProps_def)
  have b: "''missing'' \<notin> key ` set (steps (executionPlan exampleRun))"
    by (simp add: exampleRun_def examplePlan_def wideStep_def)
  from unknown_step_is_silent_noop [OF a b] a b show ?thesis by simp
qed

text \<open>
  No error comes out for a key the plan does not have: for the key \<open>missing\<close>
  the promise is not rejected and the state is untouched.
\<close>

theorem unknown_step_counterexample:
  "rejected (onReexecuteStep parseAny mutationOk exampleProps exampleState ''missing'') = None
   \<and> state_after (onReexecuteStep parseAny mutationOk exampleProps exampleState ''missing'')
       = exampleState"
  by (simp add: onReexecuteStep_def exampleProps_def exampleRun_def examplePlan_def wideStep_def)

text \<open>
  C5 (as amended). The handler does not read the flag \<open>artifactsPersisted\<close>:
  with the flag set to either value, it makes the same calls with the same
  variables, rejects or not alike, and leaves the same state.
\<close>

theorem artifactsPersisted_not_read:
  "onReexecuteStep yaml_parse mutation
       \<lparr>run = Some (r\<lparr>executionPlan := (executionPlan r)\<lparr>artifactsPersisted := flag\<rparr>\<rparr>)\<rparr> st stepName
     = onReexecuteStep yaml_parse mutation \<lparr>run = Some r\<rparr> st stepName"
  by (simp add: onReexecuteStep_def buildReexecutionConfig_eq Let_def
      cong: option.case_cong sum.case_cong)

theorem artifactsPersisted_not_read_witness:
  "onReexecuteStep parseAny mutationOk
       \<lparr>run = Some (exampleRun\<lparr>executionPlan := (executionPlan exampleRun)\<lparr>artifactsPersisted := True\<rparr>\<rparr>)\<rparr>
       exampleState ''join''
     = onReexecuteStep parseAny mutationOk exampleProps exampleState ''join''"
  using artifactsPersisted_not_read [where yaml_parse = parseAny and mutation = mutationOk
      and r = exampleRun and flag = True and st = exampleState and stepName = "''join''"]
  by (simp add: exampleProps_def)

text \<open>
  With the flag false the mutation is the first thing called, with the request
  of the persisted case; nothing is rejected and the state is untouched.
\<close>

theorem not_persisted_counterexample:
  "artifactsPersisted (executionPlan exampleRun) = False
   \<and> onReexecuteStep parseAny mutationOk exampleProps exampleState ''join''
     = \<lparr>state_after = exampleState,
        calls = [Mutation \<lparr>var_pipeline = \<lparr>selector_name = ''demo'', solidSubset = [''A'', ''B'']\<rparr>,
                          var_config = ''solids: {}'',
                          stepKeys = [''join''],
                          reexecutionConfig =
                            \<lparr>previousRunId = ''run-1'',
                             stepOutputHandles = [\<lparr>stepKey = ''A'', outputName = ''result''\<rparr>,
                                                  \<lparr>stepKey = ''B'', outputName = ''value''\<rparr>]\<rparr>,
                          var_mode = ''default''\<rparr>,
                 HandleStartExecutionResult ''demo'' ()],
        rejected = None\<rparr>"
  by (simp add: onReexecuteStep_def buildReexecutionConfig_def push_def exampleProps_def exampleRun_def
      examplePlan_def parseAny_def mutationOk_def fromA_def fromB_def resultOutput_def valueOutput_def
      wideStep_def)

section \<open>Looking up the error of a step\<close>

text \<open>
  C6. With a run loaded: when the node at position \<open>i\<close> of the log is a failure
  event of the step asked for and no earlier node is one, the highlighted error
  becomes the error of that node and the rest of the state stays; when no node
  of the log is a failure event of that step, the state stays as it is and
  nothing is raised. For the log of a start and a failure of step \<open>X\<close> with the
  message \<open>boom\<close>, asking for \<open>X\<close> highlights that error and asking for \<open>Y\<close>
  changes nothing.
\<close>

theorem onShowStateDetails_first_failure:
  assumes "run props = Some r"
  shows "(i < length (nodes (logs r))
          \<and> nodes (logs r) ! i = ExecutionStepFailureEvent (Some s) err
          \<and> step_name s = step
          \<and> (\<forall>j<i. \<forall>s' err'. nodes (logs r) ! j = ExecutionStepFailureEvent (Some s') err'
                  \<longrightarrow> step_name s' \<noteq> step)
          \<longrightarrow> onShowStateDetails props st step = st\<lparr>highlightedError := Some err\<rparr>)
       \<and> ((\<forall>s' err'. ExecutionStepFailureEvent (Some s') err' \<in> set (nodes (logs r))
                  \<longrightarrow> step_name s' \<noteq> step)
          \<longrightarrow> onShowStateDetails props st step = st)"
proof (intro conjI impI)
  assume h: "i < length (nodes (logs r))
          \<and> nodes (logs r) ! i = ExecutionStepFailureEvent (Some s) err
          \<and> step_name s = step
          \<and> (\<forall>j<i. \<forall>s' err'. nodes (logs r) ! j = ExecutionStepFailureEvent (Some s') err'
                  \<longrightarrow> step_name s' \<noteq> step)"
  then have "isFailureOfStep step (nodes (logs r) ! i)" by simp
  moreover from h have "\<forall>j<i. \<not> isFailureOfStep step (nodes (logs r) ! j)"
    unfolding isFailureOfStep_iff by blast
  ultimately have "List.find (isFailureOfStep step) (nodes (logs r))
      = Some (ExecutionStepFailureEvent (Some s) err)"
    using h by (subst find_Some_iff) (intro exI [of _ i], simp)
  with assms show "onShowStateDetails props st step = st\<lparr>highlightedError := Some err\<rparr>"
    by (simp add: onShowStateDetails_def setState_def noKeys_def)
next
  assume "\<forall>s' err'. ExecutionStepFailureEvent (Some s') err' \<in> set (nodes (logs r))
                  \<longrightarrow> step_name s' \<noteq> step"
  then have "\<not> (\<exists>n. n \<in> set (nodes (logs r)) \<and> isFailureOfStep step n)"
    by (auto simp add: isFailureOfStep_iff)
  then have "List.find (isFailureOfStep step) (nodes (logs r)) = None"
    by (rule find_None_iff [THEN iffD2])
  with assms show "onShowStateDetails props st step = st"
    by (simp add: onShowStateDetails_def)
qed

theorem onShowStateDetails_first_failure_witness:
  "onShowStateDetails exampleProps (exampleState\<lparr>highlightedError := None\<rparr>) ''X''
     = exampleState\<lparr>highlightedError := Some \<lparr>message = ''boom'', stack = []\<rparr>\<rparr>
   \<and> onShowStateDetails exampleProps exampleState ''Y'' = exampleState"
proof -
  have a: "run exampleProps = Some exampleRun" by (simp add: exampleProps_def)
  have n: "nodes (logs exampleRun) = [OtherEvent ''ExecutionStepStartEvent'',
                       ExecutionStepFailureEvent (Some \<lparr>step_name = ''X''\<rparr>) boom]"
    by (simp add: exampleRun_def)
  have x: "onShowStateDetails exampleProps (exampleState\<lparr>highlightedError := None\<rparr>) ''X''
     = exampleState\<lparr>highlightedError := None, highlightedError := Some boom\<rparr>"
    using onShowStateDetails_first_failure [OF a, where i = 1 and s = "\<lparr>step_name = ''X''\<rparr>"
        and err = boom and step = "''X''" and st = "exampleState\<lparr>highlightedError := None\<rparr>"]
    by (simp add: n)
  have y: "onShowStateDetails exampleProps exampleState ''Y'' = exampleState"
    using onShowStateDetails_first_failure [OF a, where step = "''Y''" and st = exampleState]
    by (simp add: n)
  from x y show ?thesis by (simp add: boom_def)
qed

section \<open>The highlighted error and the filter\<close>

text \<open>
  C8. Closing the error dialog sets the highlighted error to none and changes
  nothing else: the filter and the split ratio of the state it runs on are kept.
\<close>

theorem onClose_clears_only_highlightedError:
  "highlightedError (onClose (render props st) now) = None
   \<and> logsFilter (onClose (render props st) now) = logsFilter now
   \<and> logsVW (onClose (render props st) now) = logsVW now"
  by (simp add: render_def setState_def noKeys_def)

theorem onClose_clears_only_highlightedError_witness:
  "highlightedError exampleState = Some boom
   \<and> highlightedError (onClose (render exampleProps exampleState) exampleState) = None
   \<and> logsFilter (onClose (render exampleProps exampleState) exampleState)
       = \<lparr>filter_text = ''warn'', levels = {''INFO'', ''ERROR''}\<rparr>
   \<and> logsVW (onClose (render exampleProps exampleState) exampleState) = 75"
  using onClose_clears_only_highlightedError [of exampleProps exampleState exampleState]
  by (simp add: exampleState_def)

text \<open>
  C10. Applying the step filter for the step \<open>stepName\<close>, with the handler of the
  current rendering, sets the text of the filter to \<open>step:\<close> followed by the
  step's name; the levels and every further field of the filter are the ones it
  had, and so are the split ratio and the highlighted error.
\<close>

theorem onApplyStepFilter_replaces_only_text:
  "filter_text (logsFilter (onApplyStepFilter (render props st) stepName st)) = ''step:'' @ stepName
   \<and> levels (logsFilter (onApplyStepFilter (render props st) stepName st)) = levels (logsFilter st)
   \<and> ILogFilter.more (logsFilter (onApplyStepFilter (render props st) stepName st))
       = ILogFilter.more (logsFilter st)
   \<and> logsVW (onApplyStepFilter (render props st) stepName st) = logsVW st
   \<and> highlightedError (onApplyStepFilter (render props st) stepName st) = highlightedError st"
  by (simp add: render_def setState_def noKeys_def)

theorem onApplyStepFilter_replaces_only_text_witness:
  "logsFilter (onApplyStepFilter (render exampleProps exampleState) ''join'' exampleState)
     = \<lparr>filter_text = ''step:join'', levels = {''INFO'', ''ERROR''}\<rparr>"
  using onApplyStepFilter_replaces_only_text [of exampleProps exampleState "''join''"]
  by (simp add: exampleState_def ILogFilter.equality)

section \<open>No run loaded\<close>

text \<open>
  C9. Without a run, asking for a re-execution calls nothing, rejects nothing
  and leaves the state as it is, and asking for the error of a step leaves the
  state as it is.
\<close>

theorem no_run_is_noop:
  "run props = None \<Longrightarrow>
     onReexecuteStep yaml_parse mutation props st stepName
       = \<lparr>state_after = st, calls = [], rejected = None\<rparr>
     \<and> onShowStateDetails props st step = st"
  by (simp add: onReexecuteStep_def onShowStateDetails_def)

theorem no_run_is_noop_witness:
  "run noRunProps = None
   \<and> onReexecuteStep parseAny mutationOk noRunProps exampleState ''join''
       = \<lparr>state_after = exampleState, calls = [], rejected = None\<rparr>
   \<and> onShowStateDetails noRunProps exampleState ''X'' = exampleState"
  using no_run_is_noop [where props = noRunProps and yaml_parse = parseAny
      and mutation = mutationOk and st = exampleState and stepName = "''join''" and step = "''X''"]
  by (simp add: noRunProps_def)

end
